theory Spec2Isabelle
  imports Main "HOL-Library.AList"
begin

section \<open>Data model of the chat servers\<close>

text \<open>
  The repository holds two variants of the Socket.io chat server.  The first one (the
  "Buddy" server) keeps a per-connection chat history in \<open>userMemory\<close> and has one
  \<open>try/catch\<close> around the whole message handler.  The second one (the basic server)
  keeps no history and has an inner \<open>try/catch\<close> around the generation call.  The
  handlers \<open>user_join\<close> and \<open>typing\<close> are the same text in both.

  A JavaScript \<open>Map\<close> is an association list with distinct keys in insertion order:
  \<open>Map.set\<close> is \<open>AList.update\<close> (an existing key keeps its place, a new key goes to the
  end), \<open>Map.get\<close> is \<open>map_of\<close>, \<open>Map.delete\<close> is \<open>AList.delete\<close> and \<open>Map.size\<close> is
  the length of the list.

  The arrays stored in \<open>userMemory\<close> are objects: the message handler keeps a reference
  to the array across its \<open>await\<close>, so the arrays live in an explicit store and
  \<open>userMemory\<close> maps a socket id to an address.

  Every reading of the clock (\<open>Date.now()\<close>, \<open>new Date()\<close>) is an argument of the
  handler that reads it; a timestamp (\<open>new Date().toISOString()\<close>) is kept as the
  reading in milliseconds.
\<close>

type_synonym socket_id = string
type_synonym addr = nat

record user =
  username :: string
  joinTime :: int

record turn =
  role :: string
  content :: string

text \<open>The three ways the handlers emit: \<open>io.emit\<close>, \<open>socket.broadcast.emit\<close>, \<open>socket.emit\<close>.\<close>

datatype target =
    Io_emit
  | Socket_broadcast_emit socket_id
  | Socket_emit socket_id

datatype event =
    User_joined (ev_username: string) (ev_message: string) (ev_timestamp: int)
  | User_message (ev_id: int) (ev_username: string) (ev_message: string)
      (ev_timestamp: int) (ev_type: string)
  | Ai_message (ev_id: int) (ev_username: string) (ev_message: string)
      (ev_timestamp: int) (ev_type: string)
  | User_left (ev_username: string) (ev_message: string) (ev_timestamp: int)
  | User_count (ev_count: nat)
  | User_typing (ev_username: string) (ev_isTyping: bool)
  | Error (ev_message: string)

type_synonym emit = "target \<times> event"

text \<open>Socket.io's delivery: which open connection an emit reaches.\<close>

fun receives :: "target \<Rightarrow> socket_id \<Rightarrow> bool" where
  "receives Io_emit c = True"
| "receives (Socket_broadcast_emit s) c = (c \<noteq> s)"
| "receives (Socket_emit s) c = (c = s)"

record server =
  connectedUsers :: "(socket_id \<times> user) list"
  userMemory :: "(socket_id \<times> addr) list"
  arrays :: "addr \<Rightarrow> turn list"
  next_addr :: addr

definition init :: server where
  "init = \<lparr>connectedUsers = [], userMemory = [], arrays = (\<lambda>_. []), next_addr = 0\<rparr>"

text \<open>The outcome of \<open>await model.generateContent(prompt)\<close> followed by
  \<open>result.response.text()\<close>: the reply text, or a rejection or exception.\<close>

datatype outcome = Generated string | Failed

section \<open>Handlers shared by both servers\<close>

definition user_join ::
  "socket_id \<Rightarrow> string \<Rightarrow> int \<Rightarrow> int \<Rightarrow> server \<Rightarrow> server \<times> emit list" where
  "user_join sid uname t_join t_stamp s =
     (let s' = s\<lparr>connectedUsers :=
                   AList.update sid \<lparr>username = uname, joinTime = t_join\<rparr> (connectedUsers s)\<rparr>
      in (s',
          [(Socket_broadcast_emit sid,
              User_joined uname (uname @ '' joined the chat'') t_stamp),
           (Io_emit, User_count (length (connectedUsers s')))]))"

definition typing :: "socket_id \<Rightarrow> bool \<Rightarrow> server \<Rightarrow> server \<times> emit list" where
  "typing sid isTyping s =
     (case map_of (connectedUsers s) sid of
        None \<Rightarrow> (s, [])
      | Some u \<Rightarrow> (s, [(Socket_broadcast_emit sid, User_typing (username u) isTyping)]))"

section \<open>The Buddy server: message handler with memory\<close>

text \<open>\<open>chatHistory.map(msg => `${msg.role === 'user' ? 'User' : 'Buddy'}: ${msg.content}`)\<close>\<close>

definition render_turn :: "turn \<Rightarrow> string" where
  "render_turn msg = (if role msg = ''user'' then ''User'' else ''Buddy'') @ '': '' @ content msg"

text \<open>\<open>Array.prototype.join\<close> on an array of strings.\<close>

fun join :: "string \<Rightarrow> string list \<Rightarrow> string" where
  "join sep [] = []"
| "join sep [x] = x"
| "join sep (x # y # ys) = x @ sep @ join sep (y # ys)"

definition historyString :: "turn list \<Rightarrow> string" where
  "historyString chatHistory = join [CHR 0x0A] (map render_turn chatHistory)"

text \<open>What the handler's closure holds across the \<open>await\<close>: the socket, the reference
  \<open>chatHistory\<close>, and the history text that went into the prompt.\<close>

record continuation =
  k_socket :: socket_id
  k_chatHistory :: addr
  k_historyString :: string

text \<open>The handler up to the \<open>await\<close>.  The fixed persona text of the prompt is left out:
  the generation call is modelled by its outcome.\<close>

definition message_begin ::
  "socket_id \<Rightarrow> string \<Rightarrow> string \<Rightarrow> int \<Rightarrow> int \<Rightarrow> server
     \<Rightarrow> server \<times> emit list \<times> continuation option" where
  "message_begin sid message uname t_id t_stamp s =
     (case map_of (connectedUsers s) sid of
        None \<Rightarrow> (s, [(Socket_emit sid, Error ''User not found. Please reconnect.'')], None)
      | Some u \<Rightarrow>
          (let (a, s1) =
                 (case map_of (userMemory s) sid of
                    None \<Rightarrow>
                      (next_addr s,
                       s\<lparr>userMemory := AList.update sid (next_addr s) (userMemory s),
                         arrays := (arrays s)(next_addr s := []),
                         next_addr := Suc (next_addr s)\<rparr>)
                  | Some a \<Rightarrow> (a, s));
               pushed = arrays s1 a @ [\<lparr>role = ''user'', content = message\<rparr>];
               chatHistory = (if length pushed > 10 then tl pushed else pushed);
               s2 = s1\<lparr>arrays := (arrays s1)(a := chatHistory)\<rparr>
           in (s2,
               [(Io_emit, User_message t_id uname message t_stamp ''user'')],
               Some \<lparr>k_socket = sid, k_chatHistory = a,
                     k_historyString = historyString chatHistory\<rparr>)))"

text \<open>The handler after the \<open>await\<close>: the reply is pushed on the array the closure
  refers to and broadcast; a failure lands in the handler's only \<open>catch\<close>.\<close>

definition message_resume ::
  "continuation \<Rightarrow> outcome \<Rightarrow> int \<Rightarrow> int \<Rightarrow> server \<Rightarrow> server \<times> emit list" where
  "message_resume k out t_id t_stamp s =
     (case out of
        Generated aiResponse \<Rightarrow>
          (s\<lparr>arrays := (arrays s)(k_chatHistory k :=
                arrays s (k_chatHistory k) @ [\<lparr>role = ''assistant'', content = aiResponse\<rparr>])\<rparr>,
           [(Io_emit, Ai_message (t_id + 1) ''AI Assistant'' aiResponse t_stamp ''ai'')])
      | Failed \<Rightarrow> (s, [(Socket_emit (k_socket k), Error ''Failed to process message'')]))"

definition disconnect :: "socket_id \<Rightarrow> int \<Rightarrow> server \<Rightarrow> server \<times> emit list" where
  "disconnect sid t_stamp s =
     (case map_of (connectedUsers s) sid of
        None \<Rightarrow> (s, [])
      | Some u \<Rightarrow>
          (let s' = s\<lparr>connectedUsers := AList.delete sid (connectedUsers s),
                      userMemory := AList.delete sid (userMemory s)\<rparr>
           in (s',
               [(Socket_broadcast_emit sid,
                   User_left (username u) (username u @ '' left the chat'') t_stamp),
                (Io_emit, User_count (length (connectedUsers s')))])))"

text \<open>The history of a connection, as \<open>userMemory.get(socket.id)\<close> gives it.\<close>

definition context_of :: "server \<Rightarrow> socket_id \<Rightarrow> turn list option" where
  "context_of s sid = map_option (arrays s) (map_of (userMemory s) sid)"

section \<open>The basic server: message handler without memory\<close>

definition basic_prompt :: "string \<Rightarrow> string" where
  "basic_prompt message =
     ''You are a helpful AI assistant in a chat room. Respond to this message in a conversational, friendly manner. Keep responses concise (1-2 sentences) and engaging. Message: ''
     @ [CHR 0x22] @ message @ [CHR 0x22]"

text \<open>Up to the \<open>await\<close>: the emits and the prompt of the generation call, if one is made.\<close>

definition basic_message_begin ::
  "socket_id \<Rightarrow> string \<Rightarrow> string \<Rightarrow> int \<Rightarrow> int \<Rightarrow> server
     \<Rightarrow> server \<times> emit list \<times> string option" where
  "basic_message_begin sid message uname t_id t_stamp s =
     (case map_of (connectedUsers s) sid of
        None \<Rightarrow> (s, [(Socket_emit sid, Error ''User not found. Please reconnect.'')], None)
      | Some u \<Rightarrow>
          (s, [(Io_emit, User_message t_id uname message t_stamp ''user'')],
           Some (basic_prompt message)))"

definition basic_message_resume ::
  "outcome \<Rightarrow> int \<Rightarrow> int \<Rightarrow> server \<Rightarrow> server \<times> emit list" where
  "basic_message_resume out t_id t_stamp s =
     (case out of
        Generated aiResponse \<Rightarrow>
          (s, [(Io_emit, Ai_message (t_id + 1) ''AI Assistant'' aiResponse t_stamp ''ai'')])
      | Failed \<Rightarrow>
          (s, [(Io_emit, Ai_message (t_id + 1) ''AI Assistant''
                  ''Sorry, I encountered an error while processing your message. Please try again.''
                  t_stamp ''ai_error'')]))"

definition basic_disconnect :: "socket_id \<Rightarrow> int \<Rightarrow> server \<Rightarrow> server \<times> emit list" where
  "basic_disconnect sid t_stamp s =
     (case map_of (connectedUsers s) sid of
        None \<Rightarrow> (s, [])
      | Some u \<Rightarrow>
          (let s' = s\<lparr>connectedUsers := AList.delete sid (connectedUsers s)\<rparr>
           in (s',
               [(Socket_broadcast_emit sid,
                   User_left (username u) (username u @ '' left the chat'') t_stamp),
                (Io_emit, User_count (length (connectedUsers s')))])))"

section \<open>The event loop of the Buddy server\<close>

text \<open>
  Inbound events and settled generation calls arrive one at a time.  A message event
  gets the next request number; if its handler reaches the \<open>await\<close>, its continuation
  waits in \<open>pending\<close> until the action \<open>A_settle\<close> of that request arrives, any number
  of actions later.  Each emit is recorded in \<open>trace\<close> with the request that made it
  (\<open>None\<close> for the handlers other than the message handler).
\<close>

datatype action =
    A_user_join socket_id string int int
  | A_message socket_id string string int int
  | A_settle nat outcome int int
  | A_typing socket_id bool
  | A_disconnect socket_id int

record system =
  srv :: server
  pending :: "(nat \<times> continuation) list"
  next_req :: nat
  trace :: "(nat option \<times> emit) list"

definition boot :: system where
  "boot = \<lparr>srv = init, pending = [], next_req = 0, trace = []\<rparr>"

fun step :: "system \<Rightarrow> action \<Rightarrow> system" where
  "step y (A_user_join sid uname t_join t_stamp) =
     (let (s', es) = user_join sid uname t_join t_stamp (srv y)
      in y\<lparr>srv := s', trace := trace y @ map (Pair None) es\<rparr>)"
| "step y (A_message sid message uname t_id t_stamp) =
     (let (s', es, k) = message_begin sid message uname t_id t_stamp (srv y);
          r = next_req y
      in y\<lparr>srv := s',
           pending := (case k of None \<Rightarrow> pending y | Some c \<Rightarrow> pending y @ [(r, c)]),
           next_req := Suc r,
           trace := trace y @ map (Pair (Some r)) es\<rparr>)"
| "step y (A_settle r out t_id t_stamp) =
     (case map_of (pending y) r of
        None \<Rightarrow> y
      | Some c \<Rightarrow>
          (let (s', es) = message_resume c out t_id t_stamp (srv y)
           in y\<lparr>srv := s',
                pending := AList.delete r (pending y),
                trace := trace y @ map (Pair (Some r)) es\<rparr>))"
| "step y (A_typing sid isTyping) =
     (let (s', es) = typing sid isTyping (srv y)
      in y\<lparr>srv := s', trace := trace y @ map (Pair None) es\<rparr>)"
| "step y (A_disconnect sid t_stamp) =
     (let (s', es) = disconnect sid t_stamp (srv y)
      in y\<lparr>srv := s', trace := trace y @ map (Pair None) es\<rparr>)"

definition run :: "system \<Rightarrow> action list \<Rightarrow> system" where
  "run y acts = foldl step y acts"

section \<open>Observations on emits and traces\<close>

text \<open>The events an open connection \<open>c\<close> gets from a list of emits, in order.\<close>

definition delivered :: "emit list \<Rightarrow> socket_id \<Rightarrow> event list" where
  "delivered es c = map snd (filter (\<lambda>(t, e). receives t c) es)"

fun is_user_message :: "event \<Rightarrow> bool" where
  "is_user_message (User_message i u m t ty) = True"
| "is_user_message e = False"

fun is_ai_message :: "event \<Rightarrow> bool" where
  "is_ai_message (Ai_message i u m t ty) = True"
| "is_ai_message e = False"

fun is_error :: "event \<Rightarrow> bool" where
  "is_error (Error m) = True"
| "is_error e = False"

fun is_user_count :: "event \<Rightarrow> bool" where
  "is_user_count (User_count n) = True"
| "is_user_count e = False"

text \<open>The \<open>user_count\<close> emits of a handler: target and count.\<close>

definition user_counts :: "emit list \<Rightarrow> (target \<times> nat) list" where
  "user_counts es = map (\<lambda>(t, e). (t, ev_count e)) (filter (\<lambda>(t, e). is_user_count e) es)"

text \<open>Request \<open>r\<close> has broadcast its \<open>user_message\<close> somewhere in the trace.\<close>

definition echoed :: "nat \<Rightarrow> (nat option \<times> emit) list \<Rightarrow> bool" where
  "echoed r tr = list_ex (\<lambda>(q, t, e). q = Some r \<and> t = Io_emit \<and> is_user_message e) tr"

text \<open>
  The invariant of the event loop behind the order of a request's broadcasts: every
  request whose generation call is still pending has broadcast its \<open>user_message\<close>, and
  every \<open>ai_message\<close> in the trace is a broadcast to all that comes after the
  \<open>user_message\<close> of the same request.
\<close>

definition echo_inv :: "system \<Rightarrow> bool" where
  "echo_inv y =
     ((\<forall>(r, c) \<in> set (pending y). echoed r (trace y)) \<and>
      (\<forall>j < length (trace y). \<forall>r t e.
          trace y ! j = (Some r, t, e) \<and> is_ai_message e \<longrightarrow>
            t = Io_emit \<and> echoed r (take j (trace y))))"

text \<open>The emits of request \<open>r\<close>, in the order they were made.\<close>

definition emits_of :: "nat \<Rightarrow> (nat option \<times> emit) list \<Rightarrow> emit list" where
  "emits_of r tr = map snd (filter (\<lambda>(q, e). q = Some r) tr)"

text \<open>One round of a conversation: request \<open>i\<close> is sent and its generation call
  succeeds before anything else happens.\<close>

definition exchange :: "socket_id \<Rightarrow> nat \<Rightarrow> action list" where
  "exchange sid i =
     [A_message sid ''hi'' ''Alice'' 0 0, A_settle i (Generated ''hello'') 0 0]"

text \<open>\<open>n\<close> rounds in a row, the first one being request \<open>i\<close>.\<close>

definition chat :: "socket_id \<Rightarrow> nat \<Rightarrow> nat \<Rightarrow> action list" where
  "chat sid i n = concat (map (exchange sid) [i..<i + n])"

text \<open>The number of turns stored for a connection (\<open>0\<close> when it has no history).\<close>

definition context_length :: "server \<Rightarrow> socket_id \<Rightarrow> nat" where
  "context_length s sid = (case context_of s sid of None \<Rightarrow> 0 | Some h \<Rightarrow> length h)"

section \<open>The registry keeps distinct keys\<close>

lemma size_is_card_dom:
  "distinct (map fst m) \<Longrightarrow> length m = card (dom (map_of m))"
proof -
  assume d: "distinct (map fst m)"
  have "card (dom (map_of m)) = card (set (map fst m))"
    by (simp add: dom_map_of_conv_image_fst)
  also have "\<dots> = length (map fst m)" using d by (rule distinct_card)
  finally show ?thesis by simp
qed

lemma user_join_distinct:
  "distinct (map fst (connectedUsers s)) \<Longrightarrow>
   distinct (map fst (connectedUsers (fst (user_join sid uname tj ts s))))"
  by (simp add: user_join_def Let_def distinct_update)

lemma disconnect_distinct:
  "distinct (map fst (connectedUsers s)) \<Longrightarrow>
   distinct (map fst (connectedUsers (fst (disconnect sid ts s))))"
  by (simp add: disconnect_def Let_def distinct_delete split: option.splits)

lemma typing_state: "fst (typing sid b s) = s"
  by (simp add: typing_def split: option.splits)

lemma message_begin_users:
  "connectedUsers (fst (message_begin sid m u t1 t2 s)) = connectedUsers s"
  by (simp add: message_begin_def Let_def split: option.splits prod.splits)

lemma message_resume_users:
  "connectedUsers (fst (message_resume k out t1 t2 s)) = connectedUsers s"
  by (simp add: message_resume_def split: outcome.splits)

lemma step_distinct:
  assumes d: "distinct (map fst (connectedUsers (srv y)))"
  shows "distinct (map fst (connectedUsers (srv (step y a))))"
proof (cases a)
  case (A_user_join sid uname tj ts)
  then show ?thesis using user_join_distinct [OF d, of sid uname tj ts]
    by (simp add: Let_def split_beta)
next
  case (A_message sid m u t1 t2)
  then show ?thesis using d message_begin_users [of sid m u t1 t2 "srv y"]
    by (simp add: Let_def split_beta)
next
  case (A_settle r out t1 t2)
  then show ?thesis using d message_resume_users [of _ out t1 t2 "srv y"]
    by (simp add: Let_def split_beta split: option.splits)
next
  case (A_typing sid b)
  then show ?thesis using d typing_state [of sid b "srv y"]
    by (simp add: Let_def split_beta)
next
  case (A_disconnect sid ts)
  then show ?thesis using disconnect_distinct [OF d, of sid ts]
    by (simp add: Let_def split_beta)
qed

lemma run_distinct:
  "distinct (map fst (connectedUsers (srv y))) \<Longrightarrow>
   distinct (map fst (connectedUsers (srv (run y acts))))"
  unfolding run_def
  by (induction acts arbitrary: y) (simp_all add: step_distinct)

lemma reachable_distinct: "distinct (map fst (connectedUsers (srv (run boot acts))))"
  by (rule run_distinct) (simp add: boot_def init_def)

section \<open>Joining and typing\<close>

lemma user_join_emits:
  "snd (user_join sid uname tj ts s) =
     [(Socket_broadcast_emit sid, User_joined uname (uname @ '' joined the chat'') ts),
      (Io_emit, User_count (length (connectedUsers (fst (user_join sid uname tj ts s)))))]"
  by (simp add: user_join_def Let_def)

lemma user_join_registry:
  "map_of (connectedUsers (fst (user_join sid uname tj ts s))) =
     (map_of (connectedUsers s))(sid \<mapsto> \<lparr>username = uname, joinTime = tj\<rparr>)"
  by (simp add: user_join_def Let_def update_conv')

lemma user_join_rest:
  "userMemory (fst (user_join sid uname tj ts s)) = userMemory s \<and>
   arrays (fst (user_join sid uname tj ts s)) = arrays s \<and>
   next_addr (fst (user_join sid uname tj ts s)) = next_addr s"
  by (simp add: user_join_def Let_def)

lemma user_join_idem:
  "fst (user_join sid uname tj ts' (fst (user_join sid uname' tj' ts s))) =
   fst (user_join sid uname tj ts' s)"
  by (simp add: user_join_def Let_def)

lemma delivered_join:
  "delivered (snd (user_join sid uname tj ts s)) c =
     (if c = sid then [] else [User_joined uname (uname @ '' joined the chat'') ts]) @
     [User_count (length (connectedUsers (fst (user_join sid uname tj ts s))))]"
  by (simp add: user_join_emits delivered_def)

text \<open>
  Claim C9.  A \<open>user_join\<close> event stores the participant made of the given username and
  the clock reading as join time under the socket id; whatever was stored there before is
  replaced, not merged (joining again gives the state a single join gives), and the handler
  is total.  A \<open>user_joined\<close> event goes to every connection but the sender and a
  \<open>user_count\<close> event to every connection, the sender included.
\<close>

theorem user_join_stores_and_announces:
  "map_of (connectedUsers (fst (user_join sid uname tj ts s))) =
     (map_of (connectedUsers s))(sid \<mapsto> \<lparr>username = uname, joinTime = tj\<rparr>)
   \<and> fst (user_join sid uname tj ts' (fst (user_join sid uname' tj' ts s))) =
       fst (user_join sid uname tj ts' s)
   \<and> snd (user_join sid uname tj ts s) =
       [(Socket_broadcast_emit sid, User_joined uname (uname @ '' joined the chat'') ts),
        (Io_emit, User_count (length (connectedUsers (fst (user_join sid uname tj ts s)))))]
   \<and> delivered (snd (user_join sid uname tj ts s)) c =
       (if c = sid then [] else [User_joined uname (uname @ '' joined the chat'') ts]) @
       [User_count (length (connectedUsers (fst (user_join sid uname tj ts s))))]"
  by (intro conjI user_join_registry user_join_idem user_join_emits delivered_join)

theorem user_join_stores_and_announces_witness:
  "map_of (connectedUsers (fst (user_join ''s1'' ''Bob'' 7 8
       (fst (user_join ''s1'' ''Alice'' 1 2 init))))) ''s1''
     = Some \<lparr>username = ''Bob'', joinTime = 7\<rparr>
   \<and> delivered (snd (user_join ''s1'' ''Bob'' 7 8 (fst (user_join ''s1'' ''Alice'' 1 2 init)))) ''s1''
     = [User_count 1]
   \<and> delivered (snd (user_join ''s1'' ''Bob'' 7 8 (fst (user_join ''s1'' ''Alice'' 1 2 init)))) ''s2''
     = [User_joined ''Bob'' ''Bob joined the chat'' 8, User_count 1]"
  using user_join_stores_and_announces
    [where sid="''s1''" and uname="''Bob''" and tj=7 and ts=8 and c="''s1''"
       and s="fst (user_join ''s1'' ''Alice'' 1 2 init)"]
    user_join_stores_and_announces
    [where sid="''s1''" and uname="''Bob''" and tj=7 and ts=8 and c="''s2''"
       and s="fst (user_join ''s1'' ''Alice'' 1 2 init)"]
  by (simp add: user_join_def init_def Let_def)

text \<open>
  Claim C6.  A \<open>typing\<close> event from a connection that is not in the registry emits
  nothing (no \<open>user_typing\<close>, no \<open>error\<close>) and changes no state; from a registered
  connection, one \<open>user_typing\<close> event with the registered username reaches every other
  connection and not the sender.
\<close>

theorem typing_ignored_or_relayed_to_others:
  "(map_of (connectedUsers s) sid = None \<longrightarrow>
      typing sid isTyping s = (s, []) \<and> delivered (snd (typing sid isTyping s)) c = [])
   \<and> (map_of (connectedUsers s) sid = Some u \<longrightarrow>
      typing sid isTyping s = (s, [(Socket_broadcast_emit sid, User_typing (username u) isTyping)])
      \<and> delivered (snd (typing sid isTyping s)) c =
          (if c = sid then [] else [User_typing (username u) isTyping]))"
  by (simp add: typing_def delivered_def)

theorem typing_ignored_or_relayed_to_others_witness:
  "map_of (connectedUsers init) ''s1'' = None
   \<and> typing ''s1'' True init = (init, [])
   \<and> map_of (connectedUsers (fst (user_join ''s1'' ''Alice'' 1 2 init))) ''s1''
       = Some \<lparr>username = ''Alice'', joinTime = 1\<rparr>
   \<and> delivered (snd (typing ''s1'' True (fst (user_join ''s1'' ''Alice'' 1 2 init)))) ''s1'' = []
   \<and> delivered (snd (typing ''s1'' True (fst (user_join ''s1'' ''Alice'' 1 2 init)))) ''s2''
       = [User_typing ''Alice'' True]"
proof -
  let ?s = "fst (user_join ''s1'' ''Alice'' 1 2 init)"
  let ?u = "\<lparr>username = ''Alice'', joinTime = 1\<rparr>"
  have a: "map_of (connectedUsers init) ''s1'' = None" by (simp add: init_def)
  have b: "map_of (connectedUsers ?s) ''s1'' = Some ?u"
    by (simp add: user_join_def init_def Let_def)
  note t = typing_ignored_or_relayed_to_others
  from t [where s=init and sid="''s1''" and isTyping=True, THEN conjunct1, THEN mp, OF a]
  have 1: "typing ''s1'' True init = (init, [])" by (rule conjunct1)
  from t [where s="?s" and sid="''s1''" and isTyping=True and c="''s1''",
      THEN conjunct2, THEN mp, OF b, THEN conjunct2]
  have 2: "delivered (snd (typing ''s1'' True ?s)) ''s1'' = []" by simp
  from t [where s="?s" and sid="''s1''" and isTyping=True and c="''s2''",
      THEN conjunct2, THEN mp, OF b, THEN conjunct2]
  have 3: "delivered (snd (typing ''s1'' True ?s)) ''s2'' = [User_typing ''Alice'' True]" by simp
  from a b 1 2 3 show ?thesis by blast
qed
section \<open>Messages from connections that never joined\<close>

lemma message_begin_unregistered:
  "map_of (connectedUsers s) sid = None \<Longrightarrow>
   message_begin sid m uname t1 t2 s =
     (s, [(Socket_emit sid, Error ''User not found. Please reconnect.'')], None)"
  by (simp add: message_begin_def)

lemma basic_message_begin_unregistered:
  "map_of (connectedUsers s) sid = None \<Longrightarrow>
   basic_message_begin sid m uname t1 t2 s =
     (s, [(Socket_emit sid, Error ''User not found. Please reconnect.'')], None)"
  by (simp add: basic_message_begin_def)

lemma delivered_socket_emit:
  "delivered [(Socket_emit sid, e)] c = (if c = sid then [e] else [])"
  by (simp add: delivered_def)

lemma delivered_io_emit: "delivered [(Io_emit, e)] c = [e]"
  by (simp add: delivered_def)

lemma step_message_unregistered:
  "map_of (connectedUsers (srv y)) sid = None \<Longrightarrow>
   step y (A_message sid m uname t1 t2) =
     y\<lparr>next_req := Suc (next_req y),
       trace := trace y @
         [(Some (next_req y), Socket_emit sid, Error ''User not found. Please reconnect.'')]\<rparr>"
  by (simp add: message_begin_unregistered Let_def)

section \<open>The user count\<close>

lemma user_counts_join:
  "user_counts (snd (user_join sid uname tj ts s)) =
     [(Io_emit, length (connectedUsers (fst (user_join sid uname tj ts s))))]"
  by (simp add: user_join_emits user_counts_def)

lemma disconnect_registered:
  "map_of (connectedUsers s) sid = Some u \<Longrightarrow>
   disconnect sid ts s =
     (s\<lparr>connectedUsers := AList.delete sid (connectedUsers s),
        userMemory := AList.delete sid (userMemory s)\<rparr>,
      [(Socket_broadcast_emit sid, User_left (username u) (username u @ '' left the chat'') ts),
       (Io_emit, User_count (length (AList.delete sid (connectedUsers s))))])"
  by (simp add: disconnect_def Let_def)

lemma basic_disconnect_registered:
  "map_of (connectedUsers s) sid = Some u \<Longrightarrow>
   basic_disconnect sid ts s =
     (s\<lparr>connectedUsers := AList.delete sid (connectedUsers s)\<rparr>,
      [(Socket_broadcast_emit sid, User_left (username u) (username u @ '' left the chat'') ts),
       (Io_emit, User_count (length (AList.delete sid (connectedUsers s))))])"
  by (simp add: basic_disconnect_def Let_def)

lemma disconnect_unregistered:
  "map_of (connectedUsers s) sid = None \<Longrightarrow> disconnect sid ts s = (s, [])"
  by (simp add: disconnect_def)

lemma basic_disconnect_unregistered:
  "map_of (connectedUsers s) sid = None \<Longrightarrow> basic_disconnect sid ts s = (s, [])"
  by (simp add: basic_disconnect_def)

lemma user_counts_disconnect:
  "map_of (connectedUsers s) sid = Some u \<Longrightarrow>
   user_counts (snd (disconnect sid ts s)) =
     [(Io_emit, length (connectedUsers (fst (disconnect sid ts s))))]"
  by (simp add: disconnect_registered user_counts_def)

lemma user_counts_basic_disconnect:
  "map_of (connectedUsers s) sid = Some u \<Longrightarrow>
   user_counts (snd (basic_disconnect sid ts s)) =
     [(Io_emit, length (connectedUsers (fst (basic_disconnect sid ts s))))]"
  by (simp add: basic_disconnect_registered user_counts_def)

lemma basic_disconnect_distinct:
  "distinct (map fst (connectedUsers s)) \<Longrightarrow>
   distinct (map fst (connectedUsers (fst (basic_disconnect sid ts s))))"
  by (simp add: basic_disconnect_def Let_def distinct_delete split: option.splits)

lemma disconnect_registry:
  "map_of (connectedUsers (fst (disconnect sid ts s))) = (map_of (connectedUsers s))(sid := None)"
  by (auto simp add: disconnect_def Let_def delete_conv' split: option.splits)

text \<open>
  Claim C5.  A \<open>message\<close> event from a connection that is not in the registry makes the
  handler (of either server) emit exactly one \<open>error\<close> event, with \<open>socket.emit\<close>, so that
  only the sender gets it; no generation call is made, so no \<open>user_message\<close> or
  \<open>ai_message\<close> follows, and the registry and the memory are unchanged.
\<close>

theorem message_from_unregistered_gets_one_error:
  assumes "map_of (connectedUsers (srv y)) sid = None"
  shows "message_begin sid m uname t1 t2 (srv y) =
           (srv y, [(Socket_emit sid, Error ''User not found. Please reconnect.'')], None)
       \<and> basic_message_begin sid m uname t1 t2 (srv y) =
           (srv y, [(Socket_emit sid, Error ''User not found. Please reconnect.'')], None)
       \<and> delivered (fst (snd (message_begin sid m uname t1 t2 (srv y)))) c =
           (if c = sid then [Error ''User not found. Please reconnect.''] else [])
       \<and> step y (A_message sid m uname t1 t2) =
           y\<lparr>next_req := Suc (next_req y),
             trace := trace y @
               [(Some (next_req y), Socket_emit sid,
                 Error ''User not found. Please reconnect.'')]\<rparr>"
  using assms
  by (simp only: message_begin_unregistered basic_message_begin_unregistered
        step_message_unregistered delivered_socket_emit fst_conv snd_conv simp_thms)

theorem message_from_unregistered_gets_one_error_witness:
  "map_of (connectedUsers (srv boot)) ''s1'' = None
   \<and> delivered (fst (snd (message_begin ''s1'' ''hi'' ''Alice'' 5 6 (srv boot)))) ''s1'' =
       [Error ''User not found. Please reconnect.'']
   \<and> delivered (fst (snd (message_begin ''s1'' ''hi'' ''Alice'' 5 6 (srv boot)))) ''s2'' = []
   \<and> srv (step boot (A_message ''s1'' ''hi'' ''Alice'' 5 6)) = init
   \<and> pending (step boot (A_message ''s1'' ''hi'' ''Alice'' 5 6)) = []"
proof -
  have a: "map_of (connectedUsers (srv boot)) ''s1'' = None"
    by (simp add: boot_def init_def)
  note t = message_from_unregistered_gets_one_error [OF a, of "''hi''" "''Alice''" 5 6]
  have 1: "delivered (fst (snd (message_begin ''s1'' ''hi'' ''Alice'' 5 6 (srv boot)))) ''s1'' =
       [Error ''User not found. Please reconnect.'']"
    using t [of "''s1''", THEN conjunct2, THEN conjunct2, THEN conjunct1] by simp
  have 2: "delivered (fst (snd (message_begin ''s1'' ''hi'' ''Alice'' 5 6 (srv boot)))) ''s2'' = []"
    using t [of "''s2''", THEN conjunct2, THEN conjunct2, THEN conjunct1] by simp
  have 3: "step boot (A_message ''s1'' ''hi'' ''Alice'' 5 6) =
     boot\<lparr>next_req := Suc (next_req boot),
       trace := trace boot @
         [(Some (next_req boot), Socket_emit ''s1'', Error ''User not found. Please reconnect.'')]\<rparr>"
    using t [of "''s1''", THEN conjunct2, THEN conjunct2, THEN conjunct2] .
  have 4: "srv (step boot (A_message ''s1'' ''hi'' ''Alice'' 5 6)) = init"
    unfolding 3 by (simp add: boot_def)
  have 5: "pending (step boot (A_message ''s1'' ''hi'' ''Alice'' 5 6)) = []"
    unfolding 3 by (simp add: boot_def)
  from a 1 2 4 5 show ?thesis by blast
qed

text \<open>
  Claim C4, as amended.  In a registry with distinct keys (every reachable one, see
  \<open>reachable_distinct\<close>), a \<open>user_join\<close> event emits exactly one \<open>user_count\<close> event,
  to all connections, and its count is the number of registered connections after the
  join; a \<open>disconnect\<close> of a registered connection does the same with the number of
  connections left after the removal; a \<open>disconnect\<close> of a connection that never joined
  emits nothing and changes nothing.
\<close>

theorem user_count_is_registry_size:
  assumes "distinct (map fst (connectedUsers s))"
  shows "user_counts (snd (user_join sid uname tj ts s)) =
           [(Io_emit, card (dom (map_of (connectedUsers (fst (user_join sid uname tj ts s))))))]
       \<and> (map_of (connectedUsers s) sid = Some u \<longrightarrow>
            user_counts (snd (disconnect sid ts s)) =
              [(Io_emit, card (dom (map_of (connectedUsers (fst (disconnect sid ts s))))))]
          \<and> user_counts (snd (basic_disconnect sid ts s)) =
              [(Io_emit, card (dom (map_of (connectedUsers (fst (basic_disconnect sid ts s))))))]
          \<and> map_of (connectedUsers (fst (disconnect sid ts s))) =
              (map_of (connectedUsers s))(sid := None))
       \<and> (map_of (connectedUsers s) sid = None \<longrightarrow>
            disconnect sid ts s = (s, []) \<and> basic_disconnect sid ts s = (s, []))"
proof (intro conjI impI)
  show "user_counts (snd (user_join sid uname tj ts s)) =
          [(Io_emit, card (dom (map_of (connectedUsers (fst (user_join sid uname tj ts s))))))]"
    using size_is_card_dom [OF user_join_distinct [OF assms, of sid uname tj ts]]
    by (simp add: user_counts_join)
next
  assume r: "map_of (connectedUsers s) sid = Some u"
  show "user_counts (snd (disconnect sid ts s)) =
          [(Io_emit, card (dom (map_of (connectedUsers (fst (disconnect sid ts s))))))]"
    using size_is_card_dom [OF disconnect_distinct [OF assms, of sid ts]]
    by (simp add: user_counts_disconnect [OF r])
  show "user_counts (snd (basic_disconnect sid ts s)) =
          [(Io_emit, card (dom (map_of (connectedUsers (fst (basic_disconnect sid ts s))))))]"
    using size_is_card_dom [OF basic_disconnect_distinct [OF assms, of sid ts]]
    by (simp add: user_counts_basic_disconnect [OF r])
  show "map_of (connectedUsers (fst (disconnect sid ts s))) =
          (map_of (connectedUsers s))(sid := None)"
    by (rule disconnect_registry)
next
  assume "map_of (connectedUsers s) sid = None"
  then show "disconnect sid ts s = (s, [])" by (rule disconnect_unregistered)
next
  assume "map_of (connectedUsers s) sid = None"
  then show "basic_disconnect sid ts s = (s, [])" by (rule basic_disconnect_unregistered)
qed

theorem user_count_is_registry_size_witness:
  "distinct (map fst (connectedUsers (fst (user_join ''s1'' ''Alice'' 1 2 init))))
   \<and> map_of (connectedUsers (fst (user_join ''s1'' ''Alice'' 1 2 init))) ''s1''
       = Some \<lparr>username = ''Alice'', joinTime = 1\<rparr>
   \<and> map_of (connectedUsers (fst (user_join ''s1'' ''Alice'' 1 2 init))) ''s2'' = None
   \<and> user_counts (snd (user_join ''s2'' ''Bob'' 3 4 (fst (user_join ''s1'' ''Alice'' 1 2 init))))
       = [(Io_emit, 2)]
   \<and> user_counts (snd (disconnect ''s1'' 9 (fst (user_join ''s1'' ''Alice'' 1 2 init))))
       = [(Io_emit, 0)]
   \<and> snd (disconnect ''s2'' 9 (fst (user_join ''s1'' ''Alice'' 1 2 init))) = []"
proof -
  let ?s = "fst (user_join ''s1'' ''Alice'' 1 2 init)"
  have s: "?s = init\<lparr>connectedUsers := [(''s1'', \<lparr>username = ''Alice'', joinTime = 1\<rparr>)]\<rparr>"
    by (simp add: user_join_def init_def Let_def)
  have d: "distinct (map fst (connectedUsers ?s))" by (simp add: s)
  have a: "map_of (connectedUsers ?s) ''s1'' = Some \<lparr>username = ''Alice'', joinTime = 1\<rparr>"
    by (simp add: s)
  have b: "map_of (connectedUsers ?s) ''s2'' = None" by (simp add: s)
  note t = user_count_is_registry_size [OF d]
  have 1: "user_counts (snd (user_join ''s2'' ''Bob'' 3 4 ?s)) = [(Io_emit, 2)]"
    using t [where sid="''s2''" and uname="''Bob''" and tj=3 and ts=4, THEN conjunct1]
    by (simp add: user_join_registry init_def)
  have 2: "user_counts (snd (disconnect ''s1'' 9 ?s)) = [(Io_emit, 0)]"
    using t [where sid="''s1''" and ts=9, THEN conjunct2, THEN conjunct1, THEN mp, OF a,
             THEN conjunct1]
    by (simp add: disconnect_registry user_join_registry init_def)
  have 3: "snd (disconnect ''s2'' 9 ?s) = []"
    using t [where sid="''s2''" and ts=9, THEN conjunct2, THEN conjunct2, THEN mp, OF b,
             THEN conjunct1]
    by simp
  from d a b 1 2 3 show ?thesis by blast
qed

text \<open>
  Claim C4 as stated fails: a connection that never joined disconnects and no
  \<open>user_count\<close> event (no event at all) is emitted.
\<close>

theorem disconnect_without_join_emits_no_count:
  "trace (run boot [A_disconnect ''s1'' 5]) = []"
  by (simp add: run_def boot_def init_def disconnect_def)


section \<open>The message handler for a registered connection\<close>

lemma message_begin_emits:
  "map_of (connectedUsers s) sid = Some u \<Longrightarrow>
   fst (snd (message_begin sid m uname t1 t2 s)) =
     [(Io_emit, User_message t1 uname m t2 ''user'')]"
  by (simp add: message_begin_def Let_def split_beta)

lemma basic_message_begin_registered:
  "map_of (connectedUsers s) sid = Some u \<Longrightarrow>
   basic_message_begin sid m uname t1 t2 s =
     (s, [(Io_emit, User_message t1 uname m t2 ''user'')], Some (basic_prompt m))"
  by (simp add: basic_message_begin_def)

lemma typing_registered:
  "map_of (connectedUsers s) sid = Some u \<Longrightarrow>
   typing sid b s = (s, [(Socket_broadcast_emit sid, User_typing (username u) b)])"
  by (simp add: typing_def)


lemma message_resume_failed:
  "message_resume k Failed t1 t2 s =
     (s, [(Socket_emit (k_socket k), Error ''Failed to process message'')])"
  by (simp add: message_resume_def)

lemma message_begin_continuation:
  assumes "map_of (connectedUsers s) sid = Some u"
  shows "\<exists>k. snd (snd (message_begin sid m uname t1 t2 s)) = Some k
           \<and> k_socket k = sid
           \<and> context_of (fst (message_begin sid m uname t1 t2 s)) sid =
               Some (arrays (fst (message_begin sid m uname t1 t2 s)) (k_chatHistory k))
           \<and> arrays (fst (message_begin sid m uname t1 t2 s)) (k_chatHistory k) \<noteq> []
           \<and> k_historyString k =
               historyString (arrays (fst (message_begin sid m uname t1 t2 s)) (k_chatHistory k))"
proof (cases "map_of (userMemory s) sid")
  case None
  with assms show ?thesis
    by (simp add: message_begin_def Let_def context_of_def update_conv')
next
  case (Some a)
  with assms show ?thesis
    by (cases "arrays s a") (simp_all add: message_begin_def Let_def context_of_def)
qed

text \<open>
  Claim C10.  For a registered sender, the \<open>user_message\<close> broadcast (of either server)
  carries the username of the inbound payload, whatever the registry holds for the
  sender, so there are inputs where it differs from the registered name.  The
  \<open>typing\<close> handler emits one \<open>user_typing\<close> and nothing else, and the \<open>disconnect\<close>
  handler (of either server) emits one \<open>user_left\<close> followed by the \<open>user_count\<close> and
  nothing else; both events carry the registered username.
\<close>

theorem user_message_username_from_payload:
  "(map_of (connectedUsers s) sid = Some u \<longrightarrow>
      fst (snd (message_begin sid m uname t1 t2 s)) =
        [(Io_emit, User_message t1 uname m t2 ''user'')]
    \<and> fst (snd (basic_message_begin sid m uname t1 t2 s)) =
        [(Io_emit, User_message t1 uname m t2 ''user'')]
    \<and> snd (typing sid b s) = [(Socket_broadcast_emit sid, User_typing (username u) b)]
    \<and> snd (disconnect sid t2 s) =
        [(Socket_broadcast_emit sid,
            User_left (username u) (username u @ '' left the chat'') t2),
         (Io_emit, User_count (length (AList.delete sid (connectedUsers s))))]
    \<and> snd (basic_disconnect sid t2 s) =
        [(Socket_broadcast_emit sid,
            User_left (username u) (username u @ '' left the chat'') t2),
         (Io_emit, User_count (length (AList.delete sid (connectedUsers s))))])
   \<and> (\<exists>s0 c u0 e.
        map_of (connectedUsers s0) c = Some u0
        \<and> fst (snd (message_begin c ''hi'' ''Mallory'' 1 2 s0)) = [(Io_emit, e)]
        \<and> ev_username e \<noteq> username u0)"
proof (intro conjI impI)
  assume r: "map_of (connectedUsers s) sid = Some u"
  show "fst (snd (message_begin sid m uname t1 t2 s)) =
          [(Io_emit, User_message t1 uname m t2 ''user'')]"
    by (rule message_begin_emits [OF r])
  show "fst (snd (basic_message_begin sid m uname t1 t2 s)) =
          [(Io_emit, User_message t1 uname m t2 ''user'')]"
    by (simp add: basic_message_begin_registered [OF r])
  show "snd (typing sid b s) = [(Socket_broadcast_emit sid, User_typing (username u) b)]"
    by (simp add: typing_registered [OF r])
  show "snd (disconnect sid t2 s) =
          [(Socket_broadcast_emit sid,
              User_left (username u) (username u @ '' left the chat'') t2),
           (Io_emit, User_count (length (AList.delete sid (connectedUsers s))))]"
    by (simp add: disconnect_registered [OF r])
  show "snd (basic_disconnect sid t2 s) =
          [(Socket_broadcast_emit sid,
              User_left (username u) (username u @ '' left the chat'') t2),
           (Io_emit, User_count (length (AList.delete sid (connectedUsers s))))]"
    by (simp add: basic_disconnect_registered [OF r])
next
  let ?s0 = "fst (user_join ''s1'' ''Alice'' 0 0 init)"
  let ?u0 = "\<lparr>username = ''Alice'', joinTime = 0\<rparr>"
  have r: "map_of (connectedUsers ?s0) ''s1'' = Some ?u0"
    by (simp add: user_join_registry)
  have "fst (snd (message_begin ''s1'' ''hi'' ''Mallory'' 1 2 ?s0)) =
          [(Io_emit, User_message 1 ''Mallory'' ''hi'' 2 ''user'')]"
    by (rule message_begin_emits [OF r])
  moreover have "ev_username (User_message 1 ''Mallory'' ''hi'' 2 ''user'') \<noteq> username ?u0"
    by simp
  ultimately show "\<exists>s0 c u0 e.
        map_of (connectedUsers s0) c = Some u0
        \<and> fst (snd (message_begin c ''hi'' ''Mallory'' 1 2 s0)) = [(Io_emit, e)]
        \<and> ev_username e \<noteq> username u0"
    using r by blast
qed

theorem user_message_username_from_payload_witness:
  "map_of (connectedUsers (fst (user_join ''s1'' ''Alice'' 0 0 init))) ''s1''
     = Some \<lparr>username = ''Alice'', joinTime = 0\<rparr>
   \<and> fst (snd (message_begin ''s1'' ''hi'' ''Mallory'' 1 2 (fst (user_join ''s1'' ''Alice'' 0 0 init))))
     = [(Io_emit, User_message 1 ''Mallory'' ''hi'' 2 ''user'')]
   \<and> snd (typing ''s1'' True (fst (user_join ''s1'' ''Alice'' 0 0 init)))
     = [(Socket_broadcast_emit ''s1'', User_typing ''Alice'' True)]
   \<and> snd (disconnect ''s1'' 2 (fst (user_join ''s1'' ''Alice'' 0 0 init)))
     = [(Socket_broadcast_emit ''s1'', User_left ''Alice'' ''Alice left the chat'' 2),
        (Io_emit, User_count 0)]
   \<and> snd (basic_disconnect ''s1'' 2 (fst (user_join ''s1'' ''Alice'' 0 0 init)))
     = [(Socket_broadcast_emit ''s1'', User_left ''Alice'' ''Alice left the chat'' 2),
        (Io_emit, User_count 0)]"
proof -
  let ?s0 = "fst (user_join ''s1'' ''Alice'' 0 0 init)"
  let ?u0 = "\<lparr>username = ''Alice'', joinTime = 0\<rparr>"
  have r: "map_of (connectedUsers ?s0) ''s1'' = Some ?u0"
    by (simp add: user_join_registry)
  have c: "connectedUsers ?s0 = [(''s1'', ?u0)]"
    by (simp add: user_join_def init_def Let_def)
  note t = user_message_username_from_payload
    [where s="?s0" and sid="''s1''" and u="?u0" and m="''hi''" and uname="''Mallory''"
       and ?t1.0=1 and ?t2.0=2 and b=True, THEN conjunct1, THEN mp, OF r]
  have 1: "fst (snd (message_begin ''s1'' ''hi'' ''Mallory'' 1 2 ?s0))
      = [(Io_emit, User_message 1 ''Mallory'' ''hi'' 2 ''user'')]"
    using t by (rule conjunct1)
  have 2: "snd (typing ''s1'' True ?s0)
      = [(Socket_broadcast_emit ''s1'', User_typing ''Alice'' True)]"
    using t [THEN conjunct2, THEN conjunct2, THEN conjunct1] by simp
  have 3: "snd (disconnect ''s1'' 2 ?s0)
      = [(Socket_broadcast_emit ''s1'', User_left ''Alice'' ''Alice left the chat'' 2),
         (Io_emit, User_count 0)]"
    using t [THEN conjunct2, THEN conjunct2, THEN conjunct2, THEN conjunct1]
    unfolding c by simp
  have 4: "snd (basic_disconnect ''s1'' 2 ?s0)
      = [(Socket_broadcast_emit ''s1'', User_left ''Alice'' ''Alice left the chat'' 2),
         (Io_emit, User_count 0)]"
    using t [THEN conjunct2, THEN conjunct2, THEN conjunct2, THEN conjunct2]
    unfolding c by simp
  from r 1 2 3 4 show ?thesis by blast
qed




section \<open>Rendering the history\<close>

lemma join_snoc: "xs \<noteq> [] \<Longrightarrow> join sep (xs @ [x]) = join sep xs @ sep @ x"
proof (induction sep xs rule: join.induct)
  case (1 sep)
  then show ?case by simp
next
  case (2 sep y)
  then show ?case by simp
next
  case (3 sep y z zs)
  then show ?case by simp
qed

lemma join_Cons: "join sep (x # xs) = x @ concat (map (\<lambda>y. sep @ y) xs)"
  by (induction sep "x # xs" arbitrary: x xs rule: join.induct) simp_all

text \<open>
  Claim C8.  The rendering of a non-empty history is the line of its oldest turn
  followed, for each later turn in order, by a newline character and that turn's line;
  so appending a turn appends a newline and its line.  A line is \<open>User: \<close> and the content
  for a turn of role \<open>user\<close>, \<open>Buddy: \<close> and the content for a turn of role \<open>assistant\<close>.
  For a registered sender the text handed to the prompt is this rendering of the
  sender's stored history, which is not empty.
\<close>

theorem historyString_lines_oldest_first:
  "historyString (t # h) =
     render_turn t @ concat (map (\<lambda>x. [CHR 0x0A] @ render_turn x) h)
   \<and> (h \<noteq> [] \<longrightarrow> historyString (h @ [t]) = historyString h @ [CHR 0x0A] @ render_turn t)
   \<and> render_turn \<lparr>role = ''user'', content = c\<rparr> = ''User: '' @ c
   \<and> render_turn \<lparr>role = ''assistant'', content = c\<rparr> = ''Buddy: '' @ c
   \<and> (map_of (connectedUsers s) sid = Some u \<longrightarrow>
        (\<exists>k. snd (snd (message_begin sid m uname t1 t2 s)) = Some k
           \<and> context_of (fst (message_begin sid m uname t1 t2 s)) sid =
               Some (arrays (fst (message_begin sid m uname t1 t2 s)) (k_chatHistory k))
           \<and> arrays (fst (message_begin sid m uname t1 t2 s)) (k_chatHistory k) \<noteq> []
           \<and> k_historyString k =
               historyString (arrays (fst (message_begin sid m uname t1 t2 s)) (k_chatHistory k))))"
proof (intro conjI impI)
  show "historyString (t # h) =
          render_turn t @ concat (map (\<lambda>x. [CHR 0x0A] @ render_turn x) h)"
    by (simp add: historyString_def join_Cons comp_def)
next
  assume "h \<noteq> []"
  then show "historyString (h @ [t]) = historyString h @ [CHR 0x0A] @ render_turn t"
    by (simp add: historyString_def join_snoc)
next
  show "render_turn \<lparr>role = ''user'', content = c\<rparr> = ''User: '' @ c"
    by (simp add: render_turn_def)
  show "render_turn \<lparr>role = ''assistant'', content = c\<rparr> = ''Buddy: '' @ c"
    by (simp add: render_turn_def)
next
  assume r: "map_of (connectedUsers s) sid = Some u"
  from message_begin_continuation [OF r, of m uname t1 t2]
  show "\<exists>k. snd (snd (message_begin sid m uname t1 t2 s)) = Some k
           \<and> context_of (fst (message_begin sid m uname t1 t2 s)) sid =
               Some (arrays (fst (message_begin sid m uname t1 t2 s)) (k_chatHistory k))
           \<and> arrays (fst (message_begin sid m uname t1 t2 s)) (k_chatHistory k) \<noteq> []
           \<and> k_historyString k =
               historyString (arrays (fst (message_begin sid m uname t1 t2 s)) (k_chatHistory k))"
    by blast
qed

theorem historyString_lines_oldest_first_witness:
  "[\<lparr>role = ''user'', content = ''hi''\<rparr>, \<lparr>role = ''assistant'', content = ''yo''\<rparr>] \<noteq> []
   \<and> historyString ([\<lparr>role = ''user'', content = ''hi''\<rparr>, \<lparr>role = ''assistant'', content = ''yo''\<rparr>]
        @ [\<lparr>role = ''user'', content = ''ok''\<rparr>])
     = ''User: hi'' @ [CHR 0x0A] @ ''Buddy: yo'' @ [CHR 0x0A] @ ''User: ok''
   \<and> map_of (connectedUsers (fst (user_join ''s1'' ''Alice'' 0 0 init))) ''s1''
     = Some \<lparr>username = ''Alice'', joinTime = 0\<rparr>
   \<and> map_option k_historyString
        (snd (snd (message_begin ''s1'' ''hi'' ''Alice'' 1 2 (fst (user_join ''s1'' ''Alice'' 0 0 init)))))
     = Some ''User: hi''"
proof -
  let ?h = "[\<lparr>role = ''user'', content = ''hi''\<rparr>, \<lparr>role = ''assistant'', content = ''yo''\<rparr>]"
  let ?t = "\<lparr>role = ''user'', content = ''ok''\<rparr>"
  let ?s0 = "fst (user_join ''s1'' ''Alice'' 0 0 init)"
  have n: "?h \<noteq> []" by simp
  have r: "map_of (connectedUsers ?s0) ''s1'' = Some \<lparr>username = ''Alice'', joinTime = 0\<rparr>"
    by (simp add: user_join_registry)
  have "historyString (?h @ [?t]) = historyString ?h @ [CHR 0x0A] @ render_turn ?t"
    using historyString_lines_oldest_first
      [where h="?h" and t="?t", THEN conjunct2, THEN conjunct1, THEN mp, OF n] .
  then have 1: "historyString (?h @ [?t])
      = ''User: hi'' @ [CHR 0x0A] @ ''Buddy: yo'' @ [CHR 0x0A] @ ''User: ok''"
    by (simp add: historyString_def render_turn_def)
  have 2: "map_option k_historyString
        (snd (snd (message_begin ''s1'' ''hi'' ''Alice'' 1 2 ?s0))) = Some ''User: hi''"
    by (simp add: message_begin_def user_join_def init_def Let_def historyString_def
          render_turn_def)
  from n 1 r 2 show ?thesis by blast
qed

section \<open>The order of a request's broadcasts\<close>

lemma echoed_append: "echoed r (tr @ es) = (echoed r tr \<or> echoed r es)"
  by (simp add: echoed_def)

lemma echoed_index:
  "echoed r (take j tr) \<Longrightarrow>
   \<exists>i<j. \<exists>e. tr ! i = (Some r, Io_emit, e) \<and> is_user_message e"
proof -
  assume "echoed r (take j tr)"
  then obtain x where x: "x \<in> set (take j tr)"
    and p: "case x of (q, t, e) \<Rightarrow> q = Some r \<and> t = Io_emit \<and> is_user_message e"
    by (auto simp add: echoed_def list_ex_iff)
  from x obtain i where i: "i < length (take j tr)" and xi: "take j tr ! i = x"
    by (auto simp add: in_set_conv_nth)
  from i have ij: "i < j" by simp
  with xi have "tr ! i = x" by simp
  with p ij show ?thesis by (cases x) auto
qed

text \<open>Appending emits that hold no \<open>ai_message\<close> of a request, or only such of requests
  that have echoed already, keeps the second half of the invariant.\<close>

lemma ordered_append:
  assumes old: "\<forall>j < length tr. \<forall>r t e.
            tr ! j = (Some r, t, e) \<and> is_ai_message e \<longrightarrow> t = Io_emit \<and> echoed r (take j tr)"
      and new: "\<forall>r t e. (Some r, t, e) \<in> set es \<and> is_ai_message e \<longrightarrow> t = Io_emit \<and> echoed r tr"
  shows "\<forall>j < length (tr @ es). \<forall>r t e.
            (tr @ es) ! j = (Some r, t, e) \<and> is_ai_message e \<longrightarrow>
              t = Io_emit \<and> echoed r (take j (tr @ es))"
proof (intro allI impI)
  fix j r t e
  assume j: "j < length (tr @ es)"
    and h: "(tr @ es) ! j = (Some r, t, e) \<and> is_ai_message e"
  show "t = Io_emit \<and> echoed r (take j (tr @ es))"
  proof (cases "j < length tr")
    case True
    with h have "tr ! j = (Some r, t, e) \<and> is_ai_message e" by (simp add: nth_append)
    with old True have "t = Io_emit \<and> echoed r (take j tr)" by blast
    with True show ?thesis by simp
  next
    case False
    with j h have "(Some r, t, e) \<in> set es"
      by (metis in_set_conv_nth length_append add_diff_inverse_nat nat_add_left_cancel_less nth_append)
    with new h have "t = Io_emit \<and> echoed r tr" by blast
    with False show ?thesis by (simp add: echoed_append)
  qed
qed

lemma echo_inv_boot: "echo_inv boot"
  by (simp add: echo_inv_def boot_def)

lemma echo_inv_extend:
  assumes inv: "echo_inv y"
      and new: "\<forall>r t e. (Some r, t, e) \<in> set es \<and> is_ai_message e \<longrightarrow>
                  t = Io_emit \<and> echoed r (trace y)"
      and pend: "\<forall>(r, c) \<in> set (pending z). echoed r (trace y @ es)"
      and tr: "trace z = trace y @ es"
  shows "echo_inv z"
proof -
  from inv have o: "\<forall>j < length (trace y). \<forall>r t e.
          trace y ! j = (Some r, t, e) \<and> is_ai_message e \<longrightarrow>
            t = Io_emit \<and> echoed r (take j (trace y))"
    by (simp add: echo_inv_def)
  from ordered_append [OF o new] pend show ?thesis
    unfolding echo_inv_def tr by blast
qed

lemma echo_inv_untagged:
  assumes "echo_inv y"
  shows "echo_inv (y\<lparr>srv := s', trace := trace y @ map (Pair None) es\<rparr>)"
proof (rule echo_inv_extend [OF assms, where es="map (Pair None) es"])
  show "\<forall>r t e. (Some r, t, e) \<in> set (map (Pair None) es) \<and> is_ai_message e \<longrightarrow>
          t = Io_emit \<and> echoed r (trace y)"
    by auto
  from assms
  show "\<forall>(r, c) \<in> set (pending (y\<lparr>srv := s', trace := trace y @ map (Pair None) es\<rparr>)).
          echoed r (trace y @ map (Pair None) es)"
    by (auto simp add: echo_inv_def echoed_append)
  show "trace (y\<lparr>srv := s', trace := trace y @ map (Pair None) es\<rparr>) =
          trace y @ map (Pair None) es"
    by simp
qed

lemma echo_inv_message:
  assumes "echo_inv y"
  shows "echo_inv (step y (A_message sid m uname t1 t2))"
proof (cases "map_of (connectedUsers (srv y)) sid")
  case None
  let ?es = "[(Some (next_req y), Socket_emit sid, Error ''User not found. Please reconnect.'')]"
  show ?thesis
    unfolding step_message_unregistered [OF None]
  proof (rule echo_inv_extend [OF assms, where es="?es"])
    show "\<forall>r t e. (Some r, t, e) \<in> set ?es \<and> is_ai_message e \<longrightarrow>
            t = Io_emit \<and> echoed r (trace y)"
      by auto
    from assms
    show "\<forall>(r, c) \<in> set (pending (y\<lparr>next_req := Suc (next_req y), trace := trace y @ ?es\<rparr>)).
            echoed r (trace y @ ?es)"
      by (auto simp add: echo_inv_def echoed_append)
    show "trace (y\<lparr>next_req := Suc (next_req y), trace := trace y @ ?es\<rparr>) = trace y @ ?es"
      by simp
  qed
next
  case (Some u)
  obtain k where k: "snd (snd (message_begin sid m uname t1 t2 (srv y))) = Some k"
    using message_begin_continuation [OF Some] by blast
  let ?es = "[(Some (next_req y), Io_emit, User_message t1 uname m t2 ''user'')]"
  let ?z = "y\<lparr>srv := fst (message_begin sid m uname t1 t2 (srv y)),
          pending := pending y @ [(next_req y, k)],
          next_req := Suc (next_req y),
          trace := trace y @ ?es\<rparr>"
  have st: "step y (A_message sid m uname t1 t2) = ?z"
    using k message_begin_emits [OF Some, of m uname t1 t2]
    by (simp add: Let_def split_beta)
  show ?thesis
    unfolding st
  proof (rule echo_inv_extend [OF assms, where es="?es"])
    show "\<forall>r t e. (Some r, t, e) \<in> set ?es \<and> is_ai_message e \<longrightarrow>
            t = Io_emit \<and> echoed r (trace y)"
      by auto
    have e: "echoed (next_req y) ?es" by (simp add: echoed_def)
    with assms show "\<forall>(r, c) \<in> set (pending ?z). echoed r (trace y @ ?es)"
      by (auto simp add: echo_inv_def echoed_append)
    show "trace ?z = trace y @ ?es" by simp
  qed
qed

lemma echo_inv_settle:
  assumes "echo_inv y"
  shows "echo_inv (step y (A_settle r out t1 t2))"
proof (cases "map_of (pending y) r")
  case None
  with assms show ?thesis by simp
next
  case (Some c)
  from assms have p: "\<forall>(r, c) \<in> set (pending y). echoed r (trace y)"
    by (simp add: echo_inv_def)
  from Some have "(r, c) \<in> set (pending y)" by (rule map_of_SomeD)
  with p have er: "echoed r (trace y)" by auto
  let ?es = "map (Pair (Some r)) (snd (message_resume c out t1 t2 (srv y)))"
  let ?z = "y\<lparr>srv := fst (message_resume c out t1 t2 (srv y)),
        pending := AList.delete r (pending y),
        trace := trace y @ ?es\<rparr>"
  have st: "step y (A_settle r out t1 t2) = ?z"
    using Some by (simp add: Let_def split_beta)
  show ?thesis
    unfolding st
  proof (rule echo_inv_extend [OF assms, where es="?es"])
    show "\<forall>q t e. (Some q, t, e) \<in> set ?es \<and> is_ai_message e \<longrightarrow>
             t = Io_emit \<and> echoed q (trace y)"
      using er by (cases out) (auto simp add: message_resume_def)
    have sub: "set (AList.delete r (pending y)) \<subseteq> set (pending y)"
      by (auto simp add: AList.delete_eq)
    with p show "\<forall>(q, c) \<in> set (pending ?z). echoed q (trace y @ ?es)"
      by (auto simp add: echoed_append)
    show "trace ?z = trace y @ ?es" by simp
  qed
qed

lemma echo_inv_step: "echo_inv y \<Longrightarrow> echo_inv (step y a)"
proof (cases a)
  case (A_user_join sid uname tj ts)
  assume "echo_inv y"
  from echo_inv_untagged [OF this] A_user_join show ?thesis
    by (simp add: Let_def split_beta)
next
  case (A_message sid m uname t1 t2)
  assume "echo_inv y"
  from echo_inv_message [OF this] A_message show ?thesis by simp
next
  case (A_settle r out t1 t2)
  assume "echo_inv y"
  from echo_inv_settle [OF this] A_settle show ?thesis by simp
next
  case (A_typing sid b)
  assume "echo_inv y"
  from echo_inv_untagged [OF this] A_typing show ?thesis
    by (simp add: Let_def split_beta)
next
  case (A_disconnect sid ts)
  assume "echo_inv y"
  from echo_inv_untagged [OF this] A_disconnect show ?thesis
    by (simp add: Let_def split_beta)
qed

lemma echo_inv_run: "echo_inv y \<Longrightarrow> echo_inv (run y acts)"
  unfolding run_def
  by (induction acts arbitrary: y) (simp_all add: echo_inv_step)

lemma step_message_registered_trace:
  "map_of (connectedUsers (srv y)) sid = Some u \<Longrightarrow>
   trace (step y (A_message sid m uname t1 t2)) =
     trace y @ [(Some (next_req y), Io_emit, User_message t1 uname m t2 ''user'')]"
  using message_begin_emits [of "srv y" sid u m uname t1 t2]
  by (simp add: Let_def split_beta)

text \<open>
  Claim C3.  The handler of a \<open>message\<close> event from a registered connection broadcasts
  the \<open>user_message\<close> to all in the step that handles the event, before the generation
  call is awaited.  In every run of the event loop, whatever happens between a request
  and the settling of its generation call, every \<open>ai_message\<close> of a request is a
  broadcast to all that has, earlier in the trace, the \<open>user_message\<close> broadcast of the
  same request.
\<close>

theorem user_message_before_ai_message:
  "(map_of (connectedUsers (srv y)) sid = Some u \<longrightarrow>
      trace (step y (A_message sid m uname t1 t2)) =
        trace y @ [(Some (next_req y), Io_emit, User_message t1 uname m t2 ''user'')])
   \<and> (j < length (trace (run boot acts))
        \<and> trace (run boot acts) ! j = (Some r, t, e) \<and> is_ai_message e \<longrightarrow>
      t = Io_emit
      \<and> (\<exists>i<j. \<exists>e'. trace (run boot acts) ! i = (Some r, Io_emit, e') \<and> is_user_message e'))"
proof (intro conjI impI)
  assume "map_of (connectedUsers (srv y)) sid = Some u"
  then show "trace (step y (A_message sid m uname t1 t2)) =
        trace y @ [(Some (next_req y), Io_emit, User_message t1 uname m t2 ''user'')]"
    by (rule step_message_registered_trace)
next
  assume h: "j < length (trace (run boot acts))
        \<and> trace (run boot acts) ! j = (Some r, t, e) \<and> is_ai_message e"
  have "echo_inv (run boot acts)" by (rule echo_inv_run [OF echo_inv_boot])
  with h have a: "t = Io_emit \<and> echoed r (take j (trace (run boot acts)))"
    unfolding echo_inv_def by blast
  then show "t = Io_emit" by simp
  from a echoed_index
  show "\<exists>i<j. \<exists>e'. trace (run boot acts) ! i = (Some r, Io_emit, e') \<and> is_user_message e'"
    by blast
qed

theorem user_message_before_ai_message_witness:
  "map_of (connectedUsers (srv (run boot [A_user_join ''s1'' ''Alice'' 0 0]))) ''s1''
     = Some \<lparr>username = ''Alice'', joinTime = 0\<rparr>
   \<and> trace (step (run boot [A_user_join ''s1'' ''Alice'' 0 0])
         (A_message ''s1'' ''hi'' ''Alice'' 10 10))
     = trace (run boot [A_user_join ''s1'' ''Alice'' 0 0])
         @ [(Some 0, Io_emit, User_message 10 ''Alice'' ''hi'' 10 ''user'')]
   \<and> trace (run boot
        [A_user_join ''s1'' ''Alice'' 0 0, A_user_join ''s2'' ''Bob'' 1 1,
         A_message ''s1'' ''hi'' ''Alice'' 10 10, A_typing ''s2'' True,
         A_message ''s2'' ''yo'' ''Bob'' 20 20, A_settle 1 (Generated ''r1'') 30 30,
         A_settle 0 (Generated ''r0'') 40 40]) ! 8
     = (Some 0, Io_emit, Ai_message 41 ''AI Assistant'' ''r0'' 40 ''ai'')
   \<and> (\<exists>i<8. \<exists>e'.
        trace (run boot
          [A_user_join ''s1'' ''Alice'' 0 0, A_user_join ''s2'' ''Bob'' 1 1,
           A_message ''s1'' ''hi'' ''Alice'' 10 10, A_typing ''s2'' True,
           A_message ''s2'' ''yo'' ''Bob'' 20 20, A_settle 1 (Generated ''r1'') 30 30,
           A_settle 0 (Generated ''r0'') 40 40]) ! i = (Some 0, Io_emit, e')
        \<and> is_user_message e')"
proof -
  let ?y = "run boot [A_user_join ''s1'' ''Alice'' 0 0]"
  let ?acts = "[A_user_join ''s1'' ''Alice'' 0 0, A_user_join ''s2'' ''Bob'' 1 1,
         A_message ''s1'' ''hi'' ''Alice'' 10 10, A_typing ''s2'' True,
         A_message ''s2'' ''yo'' ''Bob'' 20 20, A_settle 1 (Generated ''r1'') 30 30,
         A_settle 0 (Generated ''r0'') 40 40]"
  let ?e = "Ai_message 41 ''AI Assistant'' ''r0'' 40 ''ai''"
  have y: "?y = boot\<lparr>srv := fst (user_join ''s1'' ''Alice'' 0 0 init),
                      trace := map (Pair None) (snd (user_join ''s1'' ''Alice'' 0 0 init))\<rparr>"
    by (simp add: run_def boot_def Let_def split_beta)
  have r: "map_of (connectedUsers (srv ?y)) ''s1'' = Some \<lparr>username = ''Alice'', joinTime = 0\<rparr>"
    unfolding y by (simp add: user_join_registry)
  have n: "next_req ?y = 0" unfolding y by (simp add: boot_def)
  have tr: "trace (run boot ?acts) =
     [(None, Socket_broadcast_emit ''s1'', User_joined ''Alice'' ''Alice joined the chat'' 0),
      (None, Io_emit, User_count 1),
      (None, Socket_broadcast_emit ''s2'', User_joined ''Bob'' ''Bob joined the chat'' 1),
      (None, Io_emit, User_count 2),
      (Some 0, Io_emit, User_message 10 ''Alice'' ''hi'' 10 ''user''),
      (None, Socket_broadcast_emit ''s2'', User_typing ''Bob'' True),
      (Some 1, Io_emit, User_message 20 ''Bob'' ''yo'' 20 ''user''),
      (Some 1, Io_emit, Ai_message 31 ''AI Assistant'' ''r1'' 30 ''ai''),
      (Some 0, Io_emit, ?e)]"
    by (simp add: run_def boot_def init_def user_join_def typing_def message_begin_def
          message_resume_def Let_def)
  have h: "8 < length (trace (run boot ?acts))
        \<and> trace (run boot ?acts) ! 8 = (Some 0, Io_emit, ?e) \<and> is_ai_message ?e"
    unfolding tr by simp
  note t = user_message_before_ai_message
  have 1: "trace (step ?y (A_message ''s1'' ''hi'' ''Alice'' 10 10))
     = trace ?y @ [(Some 0, Io_emit, User_message 10 ''Alice'' ''hi'' 10 ''user'')]"
    using t [where y="?y" and sid="''s1''" and m="''hi''" and uname="''Alice''"
        and ?t1.0=10 and ?t2.0=10, THEN conjunct1, THEN mp, OF r]
    unfolding n .
  have 2: "\<exists>i<8. \<exists>e'. trace (run boot ?acts) ! i = (Some 0, Io_emit, e') \<and> is_user_message e'"
    using t [where acts="?acts" and j=8 and r=0 and t=Io_emit and e="?e",
        THEN conjunct2, THEN mp, OF h]
    by (rule conjunct2)
  from h have 3: "trace (run boot ?acts) ! 8 = (Some 0, Io_emit, ?e)" by blast
  from r 1 3 2 show ?thesis by blast
qed

section \<open>A failed generation call\<close>

lemma message_resume_failed_state: "fst (message_resume k Failed t1 t2 s) = s"
  by (simp add: message_resume_failed)

lemma message_resume_failed_no_ai_message:
  "filter (\<lambda>(t, e). is_ai_message e) (snd (message_resume k Failed t1 t2 s)) = []"
  by (simp add: message_resume_failed)

text \<open>The basic server does what is asked of a failed generation call: one
  \<open>ai_message\<close> of type \<open>ai_error\<close>, to every connection, and no change of state.\<close>

lemma basic_message_resume_failed:
  "basic_message_resume Failed t1 t2 s =
     (s, [(Io_emit, Ai_message (t1 + 1) ''AI Assistant''
            ''Sorry, I encountered an error while processing your message. Please try again.''
            t2 ''ai_error'')])"
  by (simp add: basic_message_resume_def)

lemma basic_message_resume_failed_delivered:
  "delivered (snd (basic_message_resume Failed t1 t2 s)) c =
     [Ai_message (t1 + 1) ''AI Assistant''
        ''Sorry, I encountered an error while processing your message. Please try again.''
        t2 ''ai_error'']"
  by (simp add: basic_message_resume_failed delivered_io_emit)

text \<open>
  Claim C2, at its failing input on the Buddy server.  Alice and Bob have joined, Alice
  sends a message and its generation call fails: the request's emits are the
  \<open>user_message\<close> broadcast and then one \<open>error\<close> event to Alice's socket alone.  No
  \<open>ai_message\<close> of type \<open>ai_error\<close> is emitted, and Bob gets nothing after the user
  message.  Both stay registered.
\<close>

theorem buddy_generation_failure_emits_error_to_sender_only:
  "emits_of 0 (trace (run boot
      [A_user_join ''s1'' ''Alice'' 0 0, A_user_join ''s2'' ''Bob'' 1 1,
       A_message ''s1'' ''hi'' ''Alice'' 10 10, A_settle 0 Failed 40 40])) =
     [(Io_emit, User_message 10 ''Alice'' ''hi'' 10 ''user''),
      (Socket_emit ''s1'', Error ''Failed to process message'')]
   \<and> delivered (emits_of 0 (trace (run boot
      [A_user_join ''s1'' ''Alice'' 0 0, A_user_join ''s2'' ''Bob'' 1 1,
       A_message ''s1'' ''hi'' ''Alice'' 10 10, A_settle 0 Failed 40 40]))) ''s2'' =
     [User_message 10 ''Alice'' ''hi'' 10 ''user'']
   \<and> map fst (connectedUsers (srv (run boot
      [A_user_join ''s1'' ''Alice'' 0 0, A_user_join ''s2'' ''Bob'' 1 1,
       A_message ''s1'' ''hi'' ''Alice'' 10 10, A_settle 0 Failed 40 40]))) = [''s1'', ''s2'']"
  by (simp add: run_def boot_def init_def user_join_def message_begin_def
        message_resume_def emits_of_def delivered_def Let_def)

section \<open>The length of the stored history\<close>

text \<open>Pushing the user turn keeps an array that is within the cap within the cap, and
  what stays are the most recent turns in order.\<close>

lemma user_push_keeps_most_recent:
  assumes r: "map_of (connectedUsers s) sid = Some u"
      and a: "map_of (userMemory s) sid = Some a"
      and c: "length (arrays s a) \<le> 10"
  shows "context_of (fst (message_begin sid m uname t1 t2 s)) sid =
           Some (drop (Suc (length (arrays s a)) - 10)
                   (arrays s a @ [\<lparr>role = ''user'', content = m\<rparr>]))
       \<and> context_length (fst (message_begin sid m uname t1 t2 s)) sid \<le> 10"
proof (cases "length (arrays s a) = 10")
  case True
  then have "Suc (length (arrays s a)) - 10 = 1" by simp
  moreover from True have "arrays s a \<noteq> []" by auto
  ultimately show ?thesis using r a True
    by (simp add: message_begin_def Let_def context_of_def context_length_def drop_Suc)
next
  case False
  with c have "Suc (length (arrays s a)) - 10 = 0" by simp
  with r a c False show ?thesis
    by (simp add: message_begin_def Let_def context_of_def context_length_def)
qed

text \<open>One round: the user turn is pushed and the array cut back by at most one turn,
  then the reply is pushed with no check.\<close>

lemma run_exchange:
  assumes p: "pending y = []"
      and r: "map_of (connectedUsers (srv y)) sid = Some u"
  shows "pending (run y (exchange sid (next_req y))) = []
       \<and> connectedUsers (srv (run y (exchange sid (next_req y)))) = connectedUsers (srv y)
       \<and> next_req (run y (exchange sid (next_req y))) = Suc (next_req y)
       \<and> context_length (srv (run y (exchange sid (next_req y)))) sid =
           (if context_length (srv y) sid < 10 then context_length (srv y) sid + 2
            else context_length (srv y) sid + 1)"
proof (cases "map_of (userMemory (srv y)) sid")
  case None
  with p r show ?thesis
    by (simp add: run_def exchange_def message_begin_def message_resume_def Let_def
          context_of_def context_length_def update_conv')
next
  case (Some a)
  with p r show ?thesis
    by (simp add: run_def exchange_def message_begin_def message_resume_def Let_def
          context_of_def context_length_def)
qed

lemma run_append: "run y (xs @ ys) = run (run y xs) ys"
  by (simp add: run_def)

lemma chat_Suc: "chat sid i (Suc n) = chat sid i n @ exchange sid (i + n)"
  by (simp add: chat_def)

text \<open>After \<open>n\<close> rounds in a row the history holds \<open>2 * n\<close> turns up to the fifth round
  and one more for every later round: it grows without bound.\<close>

lemma run_chat:
  assumes p: "pending y = []"
      and r: "map_of (connectedUsers (srv y)) sid = Some u"
      and e: "context_length (srv y) sid = 0"
  shows "pending (run y (chat sid (next_req y) n)) = []
       \<and> connectedUsers (srv (run y (chat sid (next_req y) n))) = connectedUsers (srv y)
       \<and> next_req (run y (chat sid (next_req y) n)) = next_req y + n
       \<and> context_length (srv (run y (chat sid (next_req y) n))) sid =
           (if n \<le> 5 then 2 * n else n + 5)"
proof (induction n)
  case 0
  with p e show ?case by (simp add: chat_def run_def)
next
  case (Suc n)
  let ?z = "run y (chat sid (next_req y) n)"
  from Suc have zp: "pending ?z = []"
    and zc: "connectedUsers (srv ?z) = connectedUsers (srv y)"
    and zn: "next_req ?z = next_req y + n"
    and zl: "context_length (srv ?z) sid = (if n \<le> 5 then 2 * n else n + 5)"
    by simp_all
  from r zc have zr: "map_of (connectedUsers (srv ?z)) sid = Some u" by simp
  have st: "run y (chat sid (next_req y) (Suc n)) = run ?z (exchange sid (next_req ?z))"
    by (simp add: chat_Suc run_append zn)
  from run_exchange [OF zp zr] show ?case
    unfolding st zc zn zl by auto
qed

lemma context_length_after_rounds:
  "context_length (srv (run boot (A_user_join sid uname tj ts # chat sid 0 n))) sid =
     (if n \<le> 5 then 2 * n else n + 5)"
proof -
  let ?y = "step boot (A_user_join sid uname tj ts)"
  have y: "?y = boot\<lparr>srv := fst (user_join sid uname tj ts init),
                      trace := map (Pair None) (snd (user_join sid uname tj ts init))\<rparr>"
    by (simp add: boot_def Let_def split_beta)
  have p: "pending ?y = []" unfolding y by (simp add: boot_def)
  have n: "next_req ?y = 0" unfolding y by (simp add: boot_def)
  have r: "map_of (connectedUsers (srv ?y)) sid = Some \<lparr>username = uname, joinTime = tj\<rparr>"
    unfolding y by (simp add: user_join_registry)
  have e: "context_length (srv ?y) sid = 0"
    unfolding y by (simp add: user_join_def init_def Let_def context_length_def context_of_def)
  have "run boot (A_user_join sid uname tj ts # chat sid 0 n) = run ?y (chat sid (next_req ?y) n)"
    unfolding n by (simp add: run_def)
  with run_chat [OF p r e, of n] show ?thesis by simp
qed

text \<open>
  Claim C1, at its failing input.  A connection joins and has six rounds, each a message
  and its successful reply: the stored history then holds 11 turns, one more than the
  cap of 10 that the handler's comment \<open>keep last 10\<close> announces.  The seventh message is
  rendered with 11 turns in its prompt.
\<close>

theorem context_has_eleven_turns_after_six_rounds:
  "map_option length
     (context_of (srv (run boot (A_user_join ''s1'' ''Alice'' 0 0 # chat ''s1'' 0 6))) ''s1'')
   = Some 11"
  by code_simp

end
